theory Spec2Isabelle
  imports Main "HOL-Library.AList"
begin

section \<open>Strings built by the handlers\<close>

text \<open>
  The handlers build their keys and identifiers with template literals, which render a
  non-negative integer in decimal.
\<close>

definition digit_char :: "nat \<Rightarrow> char" where
  "digit_char d = ''0123456789'' ! d"

fun string_of_nat :: "nat \<Rightarrow> string" where
  "string_of_nat n =
     (if n < 10 then [digit_char n]
      else string_of_nat (n div 10) @ [digit_char (n mod 10)])"

declare string_of_nat.simps [simp del]

text \<open>\<open>Array.prototype.join(sep)\<close> on an array of strings.\<close>

fun join :: "string \<Rightarrow> string list \<Rightarrow> string" where
  "join sep [] = []"
| "join sep [x] = x"
| "join sep (x # y # ys) = x @ sep @ join sep (y # ys)"

section \<open>The in-memory lock table of \<open>backend/server.js\<close>\<close>

text \<open>
  \<open>activeSeatLocks\<close> is a JavaScript \<open>Map\<close> from the string \<open>`${showId}_${seatId}`\<close> to a
  lock object. A \<open>Map\<close> iterates in insertion order, \<open>set\<close> on a present key keeps its
  position and \<open>set\<close> on a new key appends, which is what an association list with
  \<open>AList.update\<close> and \<open>AList.delete\<close> does. Times are milliseconds since the epoch.
\<close>

record seat_lock =
  lk_lockId :: string
  lk_userId :: string
  lk_seatId :: string
  lk_showId :: string
  lk_expiresAt :: nat
  lk_socketId :: string

type_synonym lock_table = "(string \<times> seat_lock) list"

definition lockKey :: "string \<Rightarrow> string \<Rightarrow> string" where
  "lockKey showId seatId = showId @ ''_'' @ seatId"

definition has :: "lock_table \<Rightarrow> string \<Rightarrow> bool" where
  "has tbl k = (map_of tbl k \<noteq> None)"

text \<open>
  The payload of a \<open>requestLock\<close> or \<open>releaseLock\<close> message, with the fields the handlers
  destructure. \<open>msg_seatIds = None\<close> is a payload whose \<open>seatIds\<close> is missing or not an
  array; a missing \<open>showId\<close> or \<open>userId\<close> is the empty string (both are falsy); a missing
  \<open>lockId\<close> is \<open>None\<close>.
\<close>

record lock_msg =
  msg_showId :: string
  msg_seatIds :: "string list option"
  msg_userId :: string
  msg_lockId :: "string option"

text \<open>What a handler sends, and the timer it arms, in the order the code does it.\<close>

datatype target = ToSocket string | ToRoom string

datatype message =
    Error string
  | LockFailed string "string list"
  | LockSuccess string nat
  | Locked "string list" string nat string
  | Released "string list" "string option" "string option"

datatype effect =
    Emit target message
  | SetTimeout nat string "string list" string

definition room :: "string \<Rightarrow> string" where
  "room showId = ''show_'' @ showId"

definition new_lock ::
  "string \<Rightarrow> string \<Rightarrow> string \<Rightarrow> nat \<Rightarrow> string \<Rightarrow> string \<Rightarrow> seat_lock" where
  "new_lock lockId userId showId expiresAt sock seatId =
     \<lparr>lk_lockId = lockId, lk_userId = userId, lk_seatId = seatId, lk_showId = showId,
      lk_expiresAt = expiresAt, lk_socketId = sock\<rparr>"

text \<open>
  \<open>socket.on('requestLock')\<close>. \<open>sock\<close> is \<open>socket.id\<close>; \<open>t1\<close> and \<open>t2\<close> are the two readings
  of \<open>Date.now()\<close> (for the lock id and for the expiry). The handler has no \<open>await\<close>, so it
  runs to completion before any other handler or timer.
\<close>

definition requestLock ::
  "lock_table \<Rightarrow> string \<Rightarrow> nat \<Rightarrow> nat \<Rightarrow> lock_msg \<Rightarrow> lock_table \<times> effect list" where
  "requestLock tbl sock t1 t2 d =
     (case msg_seatIds d of
        None \<Rightarrow> (tbl, [Emit (ToSocket sock) (Error ''Invalid lock request data'')])
      | Some seatIds \<Rightarrow>
          if msg_showId d = [] \<or> msg_userId d = [] then
            (tbl, [Emit (ToSocket sock) (Error ''Invalid lock request data'')])
          else if length seatIds > 8 then
            (tbl, [Emit (ToSocket sock) (Error ''Cannot lock more than 8 seats'')])
          else
            let showId = msg_showId d;
                userId = msg_userId d;
                lockId = ''lock_'' @ showId @ ''_'' @ userId @ ''_'' @ string_of_nat t1;
                expiresAt = t2 + 3 * 60 * 1000;
                conflicts = filter (\<lambda>seatId. has tbl (lockKey showId seatId)) seatIds
            in if length conflicts > 0 then
                 (tbl, [Emit (ToSocket sock)
                          (LockFailed (''Seats '' @ join '', '' conflicts @ '' are already locked'')
                             conflicts)])
               else
                 (foldl (\<lambda>t seatId. AList.update (lockKey showId seatId)
                            (new_lock lockId userId showId expiresAt sock seatId) t)
                    tbl seatIds,
                  [Emit (ToRoom (room showId)) (Locked seatIds lockId expiresAt userId),
                   Emit (ToSocket sock) (LockSuccess lockId expiresAt),
                   SetTimeout (3 * 60 * 1000) showId seatIds lockId]))"

text \<open>
  \<open>releaseSeatLock(showId, seatIds, specificLockId = null)\<close>. \<open>!specificLockId\<close> holds for
  \<open>null\<close>, \<open>undefined\<close> and the empty string.
\<close>

definition falsy :: "string option \<Rightarrow> bool" where
  "falsy s = (case s of None \<Rightarrow> True | Some x \<Rightarrow> x = [])"

definition release_one ::
  "string \<Rightarrow> string option \<Rightarrow> lock_table \<times> effect list \<Rightarrow> string \<Rightarrow> lock_table \<times> effect list" where
  "release_one showId specificLockId st seatId =
     (case map_of (fst st) (lockKey showId seatId) of
        None \<Rightarrow> st
      | Some lock \<Rightarrow>
          if falsy specificLockId \<or> Some (lk_lockId lock) = specificLockId then
            (AList.delete (lockKey showId seatId) (fst st),
             snd st @ [Emit (ToRoom (room showId))
                         (Released [seatId] None (Some (lk_lockId lock)))])
          else st)"

definition releaseSeatLock ::
  "lock_table \<Rightarrow> string \<Rightarrow> string list \<Rightarrow> string option \<Rightarrow> lock_table \<times> effect list" where
  "releaseSeatLock tbl showId seatIds specificLockId =
     foldl (release_one showId specificLockId) (tbl, []) seatIds"

text \<open>The test \<open>lock && (!specificLockId || lock.lockId === specificLockId)\<close> on the entry of a key.\<close>

definition releasable :: "string option \<Rightarrow> lock_table \<Rightarrow> string \<Rightarrow> bool" where
  "releasable spec tbl k =
     (case map_of tbl k of
        None \<Rightarrow> False
      | Some lock \<Rightarrow> falsy spec \<or> Some (lk_lockId lock) = spec)"

text \<open>
  \<open>socket.on('releaseLock')\<close>: the payload's \<open>lockId\<close> is passed on as it is. A payload
  without an array \<open>seatIds\<close> makes \<open>seatIds.forEach\<close> throw.
\<close>

datatype js_error = TypeError

definition releaseLock :: "lock_table \<Rightarrow> lock_msg \<Rightarrow> js_error + lock_table \<times> effect list" where
  "releaseLock tbl d =
     (case msg_seatIds d of
        None \<Rightarrow> Inl TypeError
      | Some seatIds \<Rightarrow> Inr (releaseSeatLock tbl (msg_showId d) seatIds (msg_lockId d)))"






text \<open>A request is granted when the handler emits \<open>lockSuccess\<close>.\<close>

fun is_lockSuccess :: "effect \<Rightarrow> bool" where
  "is_lockSuccess (Emit t (LockSuccess lockId expiresAt)) = True"
| "is_lockSuccess e = False"

definition granted :: "effect list \<Rightarrow> bool" where
  "granted effs = list_ex is_lockSuccess effs"

text \<open>The guards at the head of the \<open>requestLock\<close> handler, all passed.\<close>

definition passes_guards :: "lock_msg \<Rightarrow> bool" where
  "passes_guards d =
     (case msg_seatIds d of
        None \<Rightarrow> False
      | Some seatIds \<Rightarrow> msg_showId d \<noteq> [] \<and> msg_userId d \<noteq> [] \<and> length seatIds \<le> 8)"

definition seats_of :: "lock_msg \<Rightarrow> string list" where
  "seats_of d = (case msg_seatIds d of None \<Rightarrow> [] | Some seatIds \<Rightarrow> seatIds)"

text \<open>The seats the handler reports as conflicts, and the lock id it mints.\<close>

definition conflicts_of :: "lock_table \<Rightarrow> lock_msg \<Rightarrow> string list" where
  "conflicts_of tbl d = filter (\<lambda>seatId. has tbl (lockKey (msg_showId d) seatId)) (seats_of d)"

definition lockId_of :: "lock_msg \<Rightarrow> nat \<Rightarrow> string" where
  "lockId_of d t1 = ''lock_'' @ msg_showId d @ ''_'' @ msg_userId d @ ''_'' @ string_of_nat t1"

section \<open>The durable store and \<open>backend/routes/bookings.js\<close>\<close>

subsection \<open>Request validation (\<open>bookingSchema\<close>)\<close>

text \<open>
  A seat of the request body: \<open>row\<close>, \<open>number\<close> and \<open>type\<close>. The number is an integer (Joi
  rejects any other number); the type is the raw string, checked against the three tiers.
\<close>

record seat_req =
  sr_row :: string
  sr_number :: int
  sr_type :: string

record booking_req =
  br_showId :: string
  br_seats :: "seat_req list"
  br_specialRequests :: "string option"

definition is_hex :: "char \<Rightarrow> bool" where
  "is_hex c = (c \<in> set ''0123456789abcdefABCDEF'')"

text \<open>
  Mongoose casts a string of 24 hex digits to an \<open>ObjectId\<close>; a query on a string it cannot
  cast throws a \<open>CastError\<close>, and the strings of 24 hex digits are the ones taken as castable
  here. An \<open>ObjectId\<close> prints in lower case, and that is how the ids of the stored documents
  are written, so \<open>objectId\<close> is the cast followed by \<open>toString()\<close>.
\<close>

definition valid_objectId :: "string \<Rightarrow> bool" where
  "valid_objectId s = (length s = 24 \<and> list_all is_hex s)"

definition hex_lower :: "char \<Rightarrow> char" where
  "hex_lower c =
     (if c = CHR ''A'' then CHR ''a'' else if c = CHR ''B'' then CHR ''b''
      else if c = CHR ''C'' then CHR ''c'' else if c = CHR ''D'' then CHR ''d''
      else if c = CHR ''E'' then CHR ''e'' else if c = CHR ''F'' then CHR ''f'' else c)"

definition objectId :: "string \<Rightarrow> string" where
  "objectId s = map hex_lower s"

definition valid_seat :: "seat_req \<Rightarrow> bool" where
  "valid_seat s =
     ((case sr_row s of [c] \<Rightarrow> c \<in> set ''ABCDEFGHIJKLMNOPQRSTUVWXYZ'' | _ \<Rightarrow> False)
      \<and> 1 \<le> sr_number s \<and> sr_number s \<le> 50
      \<and> sr_type s \<in> set [''regular'', ''premium'', ''vip''])"

text \<open>
  \<open>bookingSchema.validate\<close>: \<open>None\<close> when the body is accepted, otherwise the key of the
  first error (\<open>error.details[0].path[0]\<close>). The schema has no rule on repeated seats.
\<close>

definition bookingSchema_validate :: "booking_req \<Rightarrow> string option" where
  "bookingSchema_validate body =
     (if \<not> (length (br_showId body) = 24 \<and> list_all is_hex (br_showId body)) then Some ''showId''
      else if \<not> (list_all valid_seat (br_seats body)
                  \<and> 1 \<le> length (br_seats body) \<and> length (br_seats body) \<le> 8) then Some ''seats''
      else if \<not> (case br_specialRequests body of
                    None \<Rightarrow> True
                  | Some t \<Rightarrow> t \<noteq> [] \<and> length t \<le> 200) then Some ''specialRequests''
      else None)"

subsection \<open>Documents\<close>

record price_table =
  regular :: int
  premium :: int
  vip :: int

record show_doc =
  sh_startTime :: nat
  sh_price :: price_table
  sh_totalSeats :: int
  sh_availableSeats :: int
  sh_isActive :: bool

datatype booking_status = Pending | Confirmed | Cancelled | Refunded

datatype payment_status = PaymentPending | PaymentCompleted | PaymentFailed | PaymentRefunded

record booked_seat =
  bs_row :: string
  bs_number :: int
  bs_type :: string
  bs_price :: int

record booking_doc =
  bk_id :: string
  bk_userId :: string
  bk_showId :: string
  bk_seats :: "booked_seat list"
  bk_totalAmount :: int
  bk_status :: booking_status
  bk_paymentStatus :: payment_status
  bk_bookingReference :: "string option"
  bk_specialRequests :: "string option"

text \<open>A document of the \<open>SeatLock\<close> collection (\<open>backend/models/SeatLock.js\<close>).\<close>

record seat_lock_doc =
  sl_showId :: string
  sl_seatId :: string
  sl_lockedByUserId :: string
  sl_expiresAt :: nat

record database =
  db_shows :: "string \<rightharpoonup> show_doc"
  db_bookings :: "booking_doc list"
  db_seatLocks :: "seat_lock_doc list"

text \<open>The unique compound index \<open>{showId: 1, seatId: 1}\<close> of the \<open>SeatLock\<close> schema.\<close>

definition unique_index :: "seat_lock_doc list \<Rightarrow> bool" where
  "unique_index locks = distinct (map (\<lambda>l. (sl_showId l, sl_seatId l)) locks)"

subsection \<open>Store failures\<close>

text \<open>
  Every awaited store call may reject. \<open>fault\<close> names the first call that does, and the
  \<open>name\<close> of the error it throws; \<open>None\<close> means that no call rejects.
\<close>

datatype store_op =
    FindShow | AggregateBookings | FindSeatLocks | SaveBooking | GenerateQRCode | SaveQRCode
  | DeleteSeatLocks | UpdateShow | CommitTransaction | FetchBooking | FindBooking

datatype thrown = ValidationError | OtherError

type_synonym fault = "(store_op \<times> thrown) option"

definition throws :: "fault \<Rightarrow> store_op list \<Rightarrow> bool" where
  "throws f ops = (case f of None \<Rightarrow> False | Some (op, e) \<Rightarrow> op \<in> set ops)"

subsection \<open>\<open>POST /api/bookings\<close>\<close>

datatype response =
    BadRequest string
  | NotFound
  | TooLate
  | Conflict "string list"
  | MissingLocks "string list"
  | Created booking_doc
  | InvalidBookingData
  | BookingFailed
  | FailedAfterCommit

text \<open>The \<open>catch\<close> block, entered before the transaction has committed.\<close>

definition caught :: "fault \<Rightarrow> response" where
  "caught f = (case f of Some (op, ValidationError) \<Rightarrow> InvalidBookingData | _ \<Rightarrow> BookingFailed)"

text \<open>\<open>`${s.row}${s.number}`\<close> and the aggregation's \<open>$concat\<close> of row and number.\<close>

definition seat_id :: "string \<Rightarrow> int \<Rightarrow> string" where
  "seat_id r n = r @ string_of_nat (nat n)"

definition seatIds_of :: "booking_req \<Rightarrow> string list" where
  "seatIds_of body = map (\<lambda>s. seat_id (sr_row s) (sr_number s)) (br_seats body)"

definition booking_seatIds :: "booking_doc \<Rightarrow> string list" where
  "booking_seatIds b = map (\<lambda>s. seat_id (bs_row s) (bs_number s)) (bk_seats b)"

definition bookedSeatIds :: "database \<Rightarrow> string \<Rightarrow> string list" where
  "bookedSeatIds db showId =
     concat (map booking_seatIds
       (filter (\<lambda>b. bk_showId b = showId \<and> bk_status b \<in> set [Confirmed, Pending]) (db_bookings db)))"

definition booked_conflicts :: "database \<Rightarrow> booking_req \<Rightarrow> string list" where
  "booked_conflicts db body =
     filter (\<lambda>seatId. seatId \<in> set (bookedSeatIds db (objectId (br_showId body))))
       (seatIds_of body)"

definition activeLocks :: "database \<Rightarrow> nat \<Rightarrow> booking_req \<Rightarrow> seat_lock_doc list" where
  "activeLocks db now body =
     filter (\<lambda>l. sl_showId l = objectId (br_showId body) \<and> sl_seatId l \<in> set (seatIds_of body)
                 \<and> now \<le> sl_expiresAt l) (db_seatLocks db)"

definition userLocks :: "database \<Rightarrow> string \<Rightarrow> nat \<Rightarrow> booking_req \<Rightarrow> seat_lock_doc list" where
  "userLocks db user now body = filter (\<lambda>l. sl_lockedByUserId l = user) (activeLocks db now body)"

definition missingLocks :: "database \<Rightarrow> string \<Rightarrow> nat \<Rightarrow> booking_req \<Rightarrow> string list" where
  "missingLocks db user now body =
     filter (\<lambda>seatId. \<not> list_ex (\<lambda>l. sl_seatId l = seatId) (userLocks db user now body))
       (seatIds_of body)"

text \<open>\<open>show.price[seat.type] || show.price.regular\<close>: a price of 0 is falsy.\<close>

definition price_of :: "price_table \<Rightarrow> string \<Rightarrow> int" where
  "price_of p t =
     (let v = (if t = ''regular'' then Some (regular p)
               else if t = ''premium'' then Some (premium p)
               else if t = ''vip'' then Some (vip p) else None)
      in case v of None \<Rightarrow> regular p | Some x \<Rightarrow> if x = 0 then regular p else x)"

definition seatsWithPrices :: "show_doc \<Rightarrow> booking_req \<Rightarrow> booked_seat list" where
  "seatsWithPrices show body =
     map (\<lambda>s. \<lparr>bs_row = sr_row s, bs_number = sr_number s, bs_type = sr_type s,
               bs_price = price_of (sh_price show) (sr_type s)\<rparr>) (br_seats body)"

definition bookingData :: "show_doc \<Rightarrow> string \<Rightarrow> string \<Rightarrow> booking_req \<Rightarrow> booking_doc" where
  "bookingData show user newId body =
     \<lparr>bk_id = newId, bk_userId = user, bk_showId = objectId (br_showId body),
      bk_seats = seatsWithPrices show body,
      bk_totalAmount = foldl (\<lambda>sum seat. sum + bs_price seat) 0 (seatsWithPrices show body),
      bk_status = Confirmed, bk_paymentStatus = PaymentCompleted,
      bk_bookingReference = None, bk_specialRequests = br_specialRequests body\<rparr>"

text \<open>
  \<open>booking.save()\<close> validates the document before it runs the \<open>pre('save')\<close> hooks. The
  Booking schema requires \<open>bookingReference\<close> and a \<open>totalAmount\<close> of at least 0; the
  reference is generated only in a \<open>pre('save')\<close> hook, and \<open>bookingData\<close> sets none. The other
  required paths are always set by \<open>bookingData\<close>.
\<close>

definition booking_validate :: "booking_doc \<Rightarrow> bool" where
  "booking_validate b = (bk_bookingReference b \<noteq> None \<and> 0 \<le> bk_totalAmount b)"

text \<open>
  The three writes of the transaction: the booking is saved, the caller's \<open>SeatLock\<close>
  documents for the seats are deleted, and \<open>availableSeats\<close> is decremented.
\<close>

definition committed :: "database \<Rightarrow> show_doc \<Rightarrow> string \<Rightarrow> string \<Rightarrow> booking_req \<Rightarrow> database" where
  "committed db show user newId body =
     \<lparr>db_shows = (db_shows db)(objectId (br_showId body) \<mapsto>
                 show\<lparr>sh_availableSeats := sh_availableSeats show - int (length (seatIds_of body))\<rparr>),
      db_bookings = db_bookings db @ [bookingData show user newId body],
      db_seatLocks = filter (\<lambda>l. \<not> (sl_showId l = objectId (br_showId body)
                                   \<and> sl_seatId l \<in> set (seatIds_of body)
                                   \<and> sl_lockedByUserId l = user)) (db_seatLocks db)\<rparr>"

text \<open>
  \<open>router.post('/')\<close>. \<open>user\<close> is \<open>req.user._id\<close>, \<open>newId\<close> the \<open>_id\<close> of the new Booking
  document (a save under an \<open>_id\<close> already in the collection is a duplicate-key error),
  \<open>currentTime\<close> and \<open>lockTime\<close> the two readings of the clock, in milliseconds. The
  window test \<open>(showStartTime - currentTime) / (1000 * 60) < 15\<close> is written without the
  division, on the difference in milliseconds. Every store call runs in
  one transaction: each early return and the \<open>catch\<close> block abort it, so the store is as
  before; only \<open>commitTransaction\<close> applies the writes. The first \<open>booking.save\<close> validates
  the new document before anything is sent to the store, and a \<open>ValidationError\<close> goes to
  the \<open>catch\<close> block, which answers 400 \<open>Invalid booking data\<close>. The read of the populated booking
  comes after the commit: when it rejects, the \<open>catch\<close> block is entered with the
  transaction already committed, so its \<open>abortTransaction\<close> undoes nothing and the caller
  gets no success reply (\<open>FailedAfterCommit\<close>).
\<close>

definition post_booking ::
  "database \<Rightarrow> string \<Rightarrow> string \<Rightarrow> fault \<Rightarrow> nat \<Rightarrow> nat \<Rightarrow> booking_req \<Rightarrow> database \<times> response" where
  "post_booking db user newId f currentTime lockTime body =
     (case bookingSchema_validate body of
        Some field \<Rightarrow> (db, BadRequest field)
      | None \<Rightarrow>
          if throws f [FindShow] then (db, caught f)
          else case db_shows db (objectId (br_showId body)) of
            None \<Rightarrow> (db, NotFound)
          | Some show \<Rightarrow>
              if \<not> sh_isActive show then (db, NotFound)
              else if int (sh_startTime show) - int currentTime < 15 * (1000 * 60) then (db, TooLate)
              else if throws f [AggregateBookings] then (db, caught f)
              else if length (booked_conflicts db body) > 0 then
                (db, Conflict (booked_conflicts db body))
              else if throws f [FindSeatLocks] then (db, caught f)
              else if length (userLocks db user lockTime body) \<noteq> length (seatIds_of body) then
                (db, MissingLocks (missingLocks db user lockTime body))
              else if \<not> booking_validate (bookingData show user newId body) then
                (db, InvalidBookingData)
              else if newId \<in> set (map bk_id (db_bookings db)) then (db, BookingFailed)
              else if throws f [SaveBooking, GenerateQRCode, SaveQRCode, DeleteSeatLocks,
                                UpdateShow, CommitTransaction] then (db, caught f)
              else if throws f [FetchBooking] then (committed db show user newId body, FailedAfterCommit)
              else (committed db show user newId body, Created (bookingData show user newId body)))"

text \<open>The replies sent once the transaction has committed.\<close>

fun applied :: "response \<Rightarrow> bool" where
  "applied (Created b) = True"
| "applied FailedAfterCommit = True"
| "applied r = False"

text \<open>A seat for which the caller holds an unexpired \<open>SeatLock\<close> document of the show.\<close>

definition has_own_live_lock :: "database \<Rightarrow> string \<Rightarrow> nat \<Rightarrow> booking_req \<Rightarrow> string \<Rightarrow> bool" where
  "has_own_live_lock db user now body seatId =
     list_ex (\<lambda>l. sl_showId l = objectId (br_showId body) \<and> sl_seatId l = seatId
                  \<and> sl_lockedByUserId l = user \<and> now \<le> sl_expiresAt l) (db_seatLocks db)"

text \<open>
  The request passes every check that precedes the lock verification in \<open>router.post('/')\<close>:
  schema, show found and active, booking window, no seat already booked, and the three
  reads succeed.
\<close>

definition reaches_lock_check :: "database \<Rightarrow> fault \<Rightarrow> nat \<Rightarrow> booking_req \<Rightarrow> bool" where
  "reaches_lock_check db f currentTime body =
     (bookingSchema_validate body = None
      \<and> \<not> throws f [FindShow, AggregateBookings, FindSeatLocks]
      \<and> (case db_shows db (objectId (br_showId body)) of
            None \<Rightarrow> False
          | Some show \<Rightarrow> sh_isActive show
                        \<and> \<not> int (sh_startTime show) - int currentTime < 15 * (1000 * 60))
      \<and> booked_conflicts db body = [])"

subsection \<open>\<open>PUT /api/bookings/:id/cancel\<close>\<close>




subsection \<open>Show creation\<close>


subsection \<open>Sequences of store operations\<close>





text \<open>The seats of the confirmed bookings of a show.\<close>

definition confirmedSeatIds :: "database \<Rightarrow> string \<Rightarrow> string list" where
  "confirmedSeatIds db showId =
     concat (map booking_seatIds
       (filter (\<lambda>b. bk_showId b = showId \<and> bk_status b = Confirmed) (db_bookings db)))"




section \<open>The server: lock table and store side by side\<close>

text \<open>
  The socket handlers close over \<open>activeSeatLocks\<close> and touch nothing else; the booking
  routes work on the store through the mongoose models and never see \<open>activeSeatLocks\<close>.
\<close>

record server =
  srv_locks :: lock_table
  srv_db :: database

definition on_requestLock ::
  "server \<Rightarrow> string \<Rightarrow> nat \<Rightarrow> nat \<Rightarrow> lock_msg \<Rightarrow> server \<times> effect list" where
  "on_requestLock srv sock t1 t2 d =
     (srv\<lparr>srv_locks := fst (requestLock (srv_locks srv) sock t1 t2 d)\<rparr>,
      snd (requestLock (srv_locks srv) sock t1 t2 d))"

definition on_post_booking ::
  "server \<Rightarrow> string \<Rightarrow> string \<Rightarrow> fault \<Rightarrow> nat \<Rightarrow> nat \<Rightarrow> booking_req \<Rightarrow> server \<times> response" where
  "on_post_booking srv user newId f currentTime lockTime body =
     (srv\<lparr>srv_db := fst (post_booking (srv_db srv) user newId f currentTime lockTime body)\<rparr>,
      snd (post_booking (srv_db srv) user newId f currentTime lockTime body))"

section \<open>Example inputs\<close>

text \<open>Concrete messages, locks and documents on which the theorems below are instantiated.\<close>

definition ex_showId :: string where
  "ex_showId = ''64b7f0c2a1d3e4f5a6b7c8d9''"

definition ex_msg :: "string \<Rightarrow> string list \<Rightarrow> lock_msg" where
  "ex_msg user seatIds =
     \<lparr>msg_showId = ex_showId, msg_seatIds = Some seatIds, msg_userId = user, msg_lockId = None\<rparr>"

definition ex_lock :: "string \<Rightarrow> string \<Rightarrow> seat_lock" where
  "ex_lock user seatId =
     new_lock (''lock_'' @ ex_showId @ ''_'' @ user @ ''_5'') user ex_showId 180006 ''k1'' seatId"

definition ex_release :: "string \<Rightarrow> string list \<Rightarrow> string option \<Rightarrow> lock_msg" where
  "ex_release user seatIds lockId =
     \<lparr>msg_showId = ex_showId, msg_seatIds = Some seatIds, msg_userId = user, msg_lockId = lockId\<rparr>"


definition ex_bookingId :: string where
  "ex_bookingId = ''65a1b2c3d4e5f60718293a4b''"

definition ex_bookingId2 :: string where
  "ex_bookingId2 = ''65a1b2c3d4e5f60718293a4c''"

definition ex_prices :: price_table where
  "ex_prices = \<lparr>regular = 150, premium = 250, vip = 400\<rparr>"

definition ex_show :: show_doc where
  "ex_show = \<lparr>sh_startTime = 86400000, sh_price = ex_prices,
              sh_totalSeats = 1, sh_availableSeats = 1, sh_isActive = True\<rparr>"

definition ex_seat :: "string \<Rightarrow> int \<Rightarrow> seat_req" where
  "ex_seat r n = \<lparr>sr_row = r, sr_number = n, sr_type = ''regular''\<rparr>"

definition ex_body :: "seat_req list \<Rightarrow> booking_req" where
  "ex_body ss = \<lparr>br_showId = ex_showId, br_seats = ss, br_specialRequests = None\<rparr>"

definition ex_lockdoc :: "string \<Rightarrow> string \<Rightarrow> seat_lock_doc" where
  "ex_lockdoc user seatId =
     \<lparr>sl_showId = ex_showId, sl_seatId = seatId, sl_lockedByUserId = user, sl_expiresAt = 180006\<rparr>"

definition ex_db :: "seat_lock_doc list \<Rightarrow> booking_doc list \<Rightarrow> database" where
  "ex_db locks bks = \<lparr>db_shows = [ex_showId \<mapsto> ex_show], db_bookings = bks, db_seatLocks = locks\<rparr>"

definition ex_server :: "lock_table \<Rightarrow> database \<Rightarrow> server" where
  "ex_server tbl db = \<lparr>srv_locks = tbl, srv_db = db\<rparr>"

text \<open>A stored booking: confirmed, with its reference.\<close>

definition ex_booking :: "string \<Rightarrow> string \<Rightarrow> seat_req list \<Rightarrow> booking_doc" where
  "ex_booking user bookingId ss =
     (bookingData ex_show user bookingId (ex_body ss))\<lparr>bk_bookingReference := Some ''BKLX2K9Q1A7F3C''\<rparr>"




section \<open>Properties of the lock table\<close>

lemma lockKey_inj: "lockKey showId a = lockKey showId b \<longleftrightarrow> a = b"
  by (simp add: lockKey_def)

lemma map_of_grant_other:
  "k \<notin> lockKey showId ` set seatIds \<Longrightarrow>
   map_of (foldl (\<lambda>t seatId. AList.update (lockKey showId seatId) (mk seatId) t) tbl seatIds) k
     = map_of tbl k"
  by (induction seatIds rule: rev_induct) (simp_all add: update_conv')

lemma map_of_grant_seat:
  "s \<in> set seatIds \<Longrightarrow>
   map_of (foldl (\<lambda>t seatId. AList.update (lockKey showId seatId) (mk seatId) t) tbl seatIds)
     (lockKey showId s) = Some (mk s)"
  by (induction seatIds rule: rev_induct) (auto simp: update_conv' lockKey_inj)

lemma requestLock_rejected:
  assumes "passes_guards d" and "conflicts_of tbl d \<noteq> []"
  shows "requestLock tbl sock t1 t2 d =
           (tbl, [Emit (ToSocket sock)
                    (LockFailed (''Seats '' @ join '', '' (conflicts_of tbl d) @ '' are already locked'')
                       (conflicts_of tbl d))])"
  using assms
  by (auto simp: requestLock_def passes_guards_def conflicts_of_def seats_of_def Let_def
           split: option.splits)

lemma requestLock_granted:
  assumes "passes_guards d" and "conflicts_of tbl d = []"
  shows "requestLock tbl sock t1 t2 d =
           (foldl (\<lambda>t seatId. AList.update (lockKey (msg_showId d) seatId)
                      (new_lock (lockId_of d t1) (msg_userId d) (msg_showId d) (t2 + 180000) sock seatId) t)
              tbl (seats_of d),
            [Emit (ToRoom (room (msg_showId d)))
               (Locked (seats_of d) (lockId_of d t1) (t2 + 180000) (msg_userId d)),
             Emit (ToSocket sock) (LockSuccess (lockId_of d t1) (t2 + 180000)),
             SetTimeout 180000 (msg_showId d) (seats_of d) (lockId_of d t1)])"
  using assms
  by (auto simp: requestLock_def passes_guards_def conflicts_of_def seats_of_def Let_def lockId_of_def
           split: option.splits)

lemma granted_iff:
  assumes "passes_guards d"
  shows "granted (snd (requestLock tbl sock t1 t2 d)) \<longleftrightarrow> conflicts_of tbl d = []"
proof (cases "conflicts_of tbl d = []")
  case True
  then show ?thesis using requestLock_granted[OF assms True] by (simp add: granted_def)
next
  case False
  then show ?thesis using requestLock_rejected[OF assms False] by (simp add: granted_def)
qed

text \<open>
  Claim C1. A \<open>requestLock\<close> message that passes the handler's guards is granted as a
  whole or not at all. If some requested seat has an entry in the table, the table is
  returned as it was and the only effect is \<open>lockFailed\<close> to the requester, listing
  exactly the requested seats that have an entry. Otherwise \<open>lockSuccess\<close> is sent, every
  requested seat is mapped to a lock of the requester carrying the one lock id and the one
  expiry of this request, and no other key changes. So when a request has been granted,
  any later request for the same show that shares a seat with it leaves the table
  unchanged, is not granted, and its conflict list contains the shared seat.
\<close>

theorem requestLock_all_or_nothing:
  assumes g: "passes_guards d"
  shows "(conflicts_of tbl d \<noteq> [] \<longrightarrow>
            requestLock tbl sock t1 t2 d =
              (tbl, [Emit (ToSocket sock)
                       (LockFailed (''Seats '' @ join '', '' (conflicts_of tbl d) @ '' are already locked'')
                          (conflicts_of tbl d))]))
       \<and> (conflicts_of tbl d = [] \<longrightarrow>
            granted (snd (requestLock tbl sock t1 t2 d))
          \<and> (\<forall>s \<in> set (seats_of d).
                map_of (fst (requestLock tbl sock t1 t2 d)) (lockKey (msg_showId d) s) =
                  Some (new_lock (lockId_of d t1) (msg_userId d) (msg_showId d) (t2 + 180000) sock s))
          \<and> (\<forall>k. k \<notin> lockKey (msg_showId d) ` set (seats_of d) \<longrightarrow>
                map_of (fst (requestLock tbl sock t1 t2 d)) k = map_of tbl k))
       \<and> (\<forall>d' sock' t3 t4 s.
            passes_guards d' \<and> msg_showId d' = msg_showId d
            \<and> s \<in> set (seats_of d) \<and> s \<in> set (seats_of d')
            \<and> granted (snd (requestLock tbl sock t1 t2 d)) \<longrightarrow>
            fst (requestLock (fst (requestLock tbl sock t1 t2 d)) sock' t3 t4 d')
              = fst (requestLock tbl sock t1 t2 d)
          \<and> \<not> granted (snd (requestLock (fst (requestLock tbl sock t1 t2 d)) sock' t3 t4 d'))
          \<and> (\<exists>m cs. snd (requestLock (fst (requestLock tbl sock t1 t2 d)) sock' t3 t4 d')
                        = [Emit (ToSocket sock') (LockFailed m cs)] \<and> s \<in> set cs))"
proof (intro conjI impI allI)
  assume c: "conflicts_of tbl d \<noteq> []"
  show "requestLock tbl sock t1 t2 d =
              (tbl, [Emit (ToSocket sock)
                       (LockFailed (''Seats '' @ join '', '' (conflicts_of tbl d) @ '' are already locked'')
                          (conflicts_of tbl d))])"
    by (rule requestLock_rejected[OF g c])
next
  assume c: "conflicts_of tbl d = []"
  show "granted (snd (requestLock tbl sock t1 t2 d))"
    using granted_iff[OF g] c by simp
  show "\<forall>s \<in> set (seats_of d).
                map_of (fst (requestLock tbl sock t1 t2 d)) (lockKey (msg_showId d) s) =
                  Some (new_lock (lockId_of d t1) (msg_userId d) (msg_showId d) (t2 + 180000) sock s)"
    by (simp add: requestLock_granted[OF g c] map_of_grant_seat)
  show "\<And>k. k \<notin> lockKey (msg_showId d) ` set (seats_of d) \<Longrightarrow>
                map_of (fst (requestLock tbl sock t1 t2 d)) k = map_of tbl k"
    by (simp add: requestLock_granted[OF g c] map_of_grant_other)
next
  fix d' sock' t3 t4 s
  assume a: "passes_guards d' \<and> msg_showId d' = msg_showId d
            \<and> s \<in> set (seats_of d) \<and> s \<in> set (seats_of d')
            \<and> granted (snd (requestLock tbl sock t1 t2 d))"
  let ?tbl1 = "fst (requestLock tbl sock t1 t2 d)"
  from a have c: "conflicts_of tbl d = []" using granted_iff[OF g] by simp
  have "map_of ?tbl1 (lockKey (msg_showId d) s) \<noteq> None"
    using a by (simp add: requestLock_granted[OF g c] map_of_grant_seat)
  then have s_in: "s \<in> set (conflicts_of ?tbl1 d')"
    using a by (simp add: conflicts_of_def has_def)
  then have ne: "conflicts_of ?tbl1 d' \<noteq> []" by auto
  from a have g': "passes_guards d'" by simp
  note r = requestLock_rejected[OF g' ne, of sock' t3 t4]
  show "fst (requestLock ?tbl1 sock' t3 t4 d') = ?tbl1" by (simp add: r)
  show "\<not> granted (snd (requestLock ?tbl1 sock' t3 t4 d'))"
    using granted_iff[OF g', of ?tbl1 sock' t3 t4] ne by simp
  show "\<exists>m cs. snd (requestLock ?tbl1 sock' t3 t4 d')
                        = [Emit (ToSocket sock') (LockFailed m cs)] \<and> s \<in> set cs"
    using s_in by (simp add: r)
qed

lemmas ex_simps = ex_showId_def ex_msg_def ex_lock_def passes_guards_def conflicts_of_def seats_of_def has_def lockKey_def
  lockId_of_def new_lock_def string_of_nat.simps digit_char_def

theorem requestLock_all_or_nothing_witness:
  "passes_guards (ex_msg ''u1'' [''A1'', ''A2''])
   \<and> conflicts_of [] (ex_msg ''u1'' [''A1'', ''A2'']) = []
   \<and> granted (snd (requestLock [] ''k1'' 5 6 (ex_msg ''u1'' [''A1'', ''A2''])))
   \<and> map_of (fst (requestLock [] ''k1'' 5 6 (ex_msg ''u1'' [''A1'', ''A2'']))) (lockKey ex_showId ''A2'')
        = Some (ex_lock ''u1'' ''A2'')
   \<and> snd (requestLock (fst (requestLock [] ''k1'' 5 6 (ex_msg ''u1'' [''A1'', ''A2''])))
             ''k2'' 7 8 (ex_msg ''u2'' [''A2'', ''A3'']))
        = [Emit (ToSocket ''k2'') (LockFailed ''Seats A2 are already locked'' [''A2''])]
   \<and> requestLock [(lockKey ex_showId ''A1'', ex_lock ''u0'' ''A1'')] ''k1'' 5 6 (ex_msg ''u1'' [''A1'', ''A2''])
        = ([(lockKey ex_showId ''A1'', ex_lock ''u0'' ''A1'')],
           [Emit (ToSocket ''k1'') (LockFailed ''Seats A1 are already locked'' [''A1''])])"
proof -
  let ?d = "ex_msg ''u1'' [''A1'', ''A2'']" and ?d' = "ex_msg ''u2'' [''A2'', ''A3'']"
  let ?t = "[(lockKey ex_showId ''A1'', ex_lock ''u0'' ''A1'')]"
  have g: "passes_guards ?d" and g': "passes_guards ?d'" by (simp_all add: ex_simps)
  have c: "conflicts_of [] ?d = []" by (simp add: ex_simps)
  have c': "conflicts_of ?t ?d = [''A1'']" by (simp add: ex_simps)
  note free = requestLock_all_or_nothing[OF g, of "[]" "''k1''" 5 6]
  note busy = requestLock_all_or_nothing[OF g, of ?t "''k1''" 5 6]
  from free c have gr: "granted (snd (requestLock [] ''k1'' 5 6 ?d))" by blast
  from free c have "map_of (fst (requestLock [] ''k1'' 5 6 ?d)) (lockKey (msg_showId ?d) ''A2'')
      = Some (new_lock (lockId_of ?d 5) (msg_userId ?d) (msg_showId ?d) (6 + 180000) ''k1'' ''A2'')"
    by (simp add: ex_msg_def seats_of_def)
  then have m: "map_of (fst (requestLock [] ''k1'' 5 6 ?d)) (lockKey ex_showId ''A2'') = Some (ex_lock ''u1'' ''A2'')"
    by (simp add: ex_simps)
  have ov: "msg_showId ?d' = msg_showId ?d \<and> ''A2'' \<in> set (seats_of ?d) \<and> ''A2'' \<in> set (seats_of ?d')"
    by (simp add: ex_simps)
  from free g' ov gr
  have "\<exists>m cs. snd (requestLock (fst (requestLock [] ''k1'' 5 6 ?d)) ''k2'' 7 8 ?d')
                  = [Emit (ToSocket ''k2'') (LockFailed m cs)] \<and> ''A2'' \<in> set cs"
    by blast
  moreover have "snd (requestLock (fst (requestLock [] ''k1'' 5 6 ?d)) ''k2'' 7 8 ?d')
        = [Emit (ToSocket ''k2'') (LockFailed ''Seats A2 are already locked'' [''A2''])]"
    by (simp add: ex_simps requestLock_def Let_def)
  ultimately have l: "snd (requestLock (fst (requestLock [] ''k1'' 5 6 ?d)) ''k2'' 7 8 ?d')
        = [Emit (ToSocket ''k2'') (LockFailed ''Seats A2 are already locked'' [''A2''])]"
    by blast
  from busy c' have b: "requestLock ?t ''k1'' 5 6 ?d
        = (?t, [Emit (ToSocket ''k1'') (LockFailed ''Seats A1 are already locked'' [''A1''])])"
    by simp
  from g c gr m l b show ?thesis by blast
qed

lemma release_one_fst:
  "map_of (fst (release_one showId spec st seatId)) k =
     (if k = lockKey showId seatId \<and> releasable spec (fst st) k then None else map_of (fst st) k)"
  by (auto simp: release_one_def releasable_def delete_conv' split: option.splits)

lemma map_of_fold_release:
  "map_of (fst (foldl (release_one showId spec) (tbl, effs) seatIds)) k =
     (if k \<in> lockKey showId ` set seatIds \<and> releasable spec tbl k then None else map_of tbl k)"
proof (induction seatIds rule: rev_induct)
  case Nil
  then show ?case by simp
next
  case (snoc x xs)
  let ?st = "foldl (release_one showId spec) (tbl, effs) xs"
  have r: "releasable spec (fst ?st) k \<longleftrightarrow>
            k \<notin> lockKey showId ` set xs \<and> releasable spec tbl k"
  proof (cases "k \<in> lockKey showId ` set xs \<and> releasable spec tbl k")
    case True
    then show ?thesis by (simp add: releasable_def[of spec "fst ?st" k] snoc.IH)
  next
    case False
    then have "map_of (fst ?st) k = map_of tbl k" unfolding snoc.IH by (simp only: if_False)
    then have "releasable spec (fst ?st) k = releasable spec tbl k"
      by (simp add: releasable_def)
    with False show ?thesis by blast
  qed
  show ?case
    by (simp add: release_one_fst r snoc.IH) blast
qed

lemma map_of_releaseSeatLock:
  "map_of (fst (releaseSeatLock tbl showId seatIds spec)) k =
     (if k \<in> lockKey showId ` set seatIds \<and> releasable spec tbl k then None else map_of tbl k)"
  unfolding releaseSeatLock_def by (rule map_of_fold_release)

lemma release_one_noop:
  "\<not> releasable spec (fst st) (lockKey showId seatId) \<Longrightarrow> release_one showId spec st seatId = st"
  by (auto simp: release_one_def releasable_def split: option.splits)

lemma releaseSeatLock_noop:
  assumes "\<forall>s \<in> set seatIds. \<not> releasable spec tbl (lockKey showId s)"
  shows "releaseSeatLock tbl showId seatIds spec = (tbl, [])"
  unfolding releaseSeatLock_def using assms
  by (induction seatIds rule: rev_induct) (simp_all add: release_one_noop)

lemma releaseSeatLock_idem:
  "releaseSeatLock (fst (releaseSeatLock tbl showId seatIds spec)) showId seatIds spec
     = (fst (releaseSeatLock tbl showId seatIds spec), [])"
proof (rule releaseSeatLock_noop, rule ballI)
  fix s assume "s \<in> set seatIds"
  then have "map_of (fst (releaseSeatLock tbl showId seatIds spec)) (lockKey showId s) = None
             \<or> \<not> releasable spec tbl (lockKey showId s)"
    by (simp add: map_of_releaseSeatLock)
  then show "\<not> releasable spec (fst (releaseSeatLock tbl showId seatIds spec)) (lockKey showId s)"
    by (auto simp: releasable_def map_of_releaseSeatLock)
qed


lemma releasable_by_lockId:
  "lockId \<noteq> [] \<Longrightarrow>
   releasable (Some lockId) tbl k =
     (case map_of tbl k of None \<Rightarrow> False | Some l \<Rightarrow> lk_lockId l = lockId)"
  by (auto simp: releasable_def falsy_def split: option.splits)


text \<open>
  Claim C7, as the code has it. A release is keyed by the lock id the message names, not
  by who sends it. For a \<open>releaseLock\<close> message with an array of seats and a non-empty
  \<open>lockId\<close>: the handler does not fail; exactly the entries of the listed seats that are
  stored under that lock id are removed and every other entry stays; if no listed seat
  has an entry under that lock id (the seat is unlocked, or held under another lock id)
  the table is unchanged and nothing is emitted; and the same message sent again changes
  nothing and emits nothing.
\<close>

theorem releaseLock_by_lockId:
  assumes ids: "msg_seatIds d = Some seatIds"
    and lid: "msg_lockId d = Some lockId" and ne: "lockId \<noteq> []"
  shows "\<exists>tbl' effs.
           releaseLock tbl d = Inr (tbl', effs)
         \<and> (\<forall>k. map_of tbl' k =
                (case map_of tbl k of
                   None \<Rightarrow> None
                 | Some l \<Rightarrow> if k \<in> lockKey (msg_showId d) ` set seatIds \<and> lk_lockId l = lockId
                             then None else Some l))
         \<and> ((\<forall>s \<in> set seatIds.
                case map_of tbl (lockKey (msg_showId d) s) of
                  None \<Rightarrow> True
                | Some l \<Rightarrow> lk_lockId l \<noteq> lockId) \<longrightarrow> tbl' = tbl \<and> effs = [])
         \<and> releaseLock tbl' d = Inr (tbl', [])"
proof -
  let ?r = "releaseSeatLock tbl (msg_showId d) seatIds (Some lockId)"
  have r: "releaseLock tbl d = Inr (fst ?r, snd ?r)"
    by (simp add: releaseLock_def ids lid)
  have m: "\<forall>k. map_of (fst ?r) k =
                (case map_of tbl k of
                   None \<Rightarrow> None
                 | Some l \<Rightarrow> if k \<in> lockKey (msg_showId d) ` set seatIds \<and> lk_lockId l = lockId
                             then None else Some l)"
    by (auto simp: map_of_releaseSeatLock releasable_by_lockId[OF ne] split: option.splits)
  have n: "(\<forall>s \<in> set seatIds.
                case map_of tbl (lockKey (msg_showId d) s) of
                  None \<Rightarrow> True
                | Some l \<Rightarrow> lk_lockId l \<noteq> lockId) \<longrightarrow> fst ?r = tbl \<and> snd ?r = []"
  proof
    assume a: "\<forall>s \<in> set seatIds.
                case map_of tbl (lockKey (msg_showId d) s) of
                  None \<Rightarrow> True
                | Some l \<Rightarrow> lk_lockId l \<noteq> lockId"
    have "?r = (tbl, [])"
    proof (rule releaseSeatLock_noop, rule ballI)
      fix s assume "s \<in> set seatIds"
      with a show "\<not> releasable (Some lockId) tbl (lockKey (msg_showId d) s)"
        by (auto simp: releasable_by_lockId[OF ne] split: option.splits)
    qed
    then show "fst ?r = tbl \<and> snd ?r = []" by simp
  qed
  have i: "releaseLock (fst ?r) d = Inr (fst ?r, [])"
    by (simp add: releaseLock_def ids lid releaseSeatLock_idem)
  from r m n i show ?thesis by blast
qed

theorem releaseLock_by_lockId_witness:
  "releaseLock [(lockKey ex_showId ''A1'', ex_lock ''u1'' ''A1''),
                (lockKey ex_showId ''A2'', ex_lock ''u2'' ''A2'')]
     (ex_release ''u1'' [''A1'', ''A2'', ''A3''] (Some (lk_lockId (ex_lock ''u1'' ''A1''))))
     = Inr ([(lockKey ex_showId ''A2'', ex_lock ''u2'' ''A2'')],
            [Emit (ToRoom (room ex_showId))
               (Released [''A1''] None (Some (lk_lockId (ex_lock ''u1'' ''A1''))))])
   \<and> releaseLock [(lockKey ex_showId ''A2'', ex_lock ''u2'' ''A2'')]
       (ex_release ''u1'' [''A1'', ''A2'', ''A3''] (Some (lk_lockId (ex_lock ''u1'' ''A1''))))
     = Inr ([(lockKey ex_showId ''A2'', ex_lock ''u2'' ''A2'')], [])"
proof -
  let ?d = "ex_release ''u1'' [''A1'', ''A2'', ''A3''] (Some (lk_lockId (ex_lock ''u1'' ''A1'')))"
  let ?t = "[(lockKey ex_showId ''A1'', ex_lock ''u1'' ''A1''),
             (lockKey ex_showId ''A2'', ex_lock ''u2'' ''A2'')]"
  let ?t' = "[(lockKey ex_showId ''A2'', ex_lock ''u2'' ''A2'')]"
  have a: "msg_seatIds ?d = Some [''A1'', ''A2'', ''A3'']"
    and b: "msg_lockId ?d = Some (lk_lockId (ex_lock ''u1'' ''A1''))"
    and c: "lk_lockId (ex_lock ''u1'' ''A1'') \<noteq> []"
    by (simp_all add: ex_release_def ex_simps)
  have 1: "releaseLock ?t ?d
     = Inr (?t', [Emit (ToRoom (room ex_showId))
               (Released [''A1''] None (Some (lk_lockId (ex_lock ''u1'' ''A1''))))])"
    by (simp add: ex_release_def ex_simps releaseLock_def releaseSeatLock_def release_one_def falsy_def)
  from releaseLock_by_lockId[OF a b c, of ?t] 1
  have "releaseLock ?t' ?d = Inr (?t', [])" by auto
  with 1 show ?thesis by blast
qed

text \<open>
  Counterexample to claim C7 as stated. Seat \<open>A1\<close> is held by \<open>u1\<close>. The \<open>releaseLock\<close>
  message of \<open>u2\<close> for \<open>A1\<close> without a \<open>lockId\<close>, which is the payload the client of this
  repository sends, deletes \<open>u1\<close>'s entry; so does the message of \<open>u2\<close> that names \<open>u1\<close>'s
  lock id.
\<close>

theorem release_removes_foreign_lock_counterexample:
  "lk_userId (ex_lock ''u1'' ''A1'') \<noteq> msg_userId (ex_release ''u2'' [''A1''] None)
   \<and> releaseLock [(lockKey ex_showId ''A1'', ex_lock ''u1'' ''A1'')] (ex_release ''u2'' [''A1''] None)
       = Inr ([], [Emit (ToRoom (room ex_showId))
                     (Released [''A1''] None (Some (lk_lockId (ex_lock ''u1'' ''A1''))))])
   \<and> releaseLock [(lockKey ex_showId ''A1'', ex_lock ''u1'' ''A1'')]
        (ex_release ''u2'' [''A1''] (Some (lk_lockId (ex_lock ''u1'' ''A1''))))
       = Inr ([], [Emit (ToRoom (room ex_showId))
                     (Released [''A1''] None (Some (lk_lockId (ex_lock ''u1'' ''A1''))))])"
  by (simp add: ex_release_def ex_simps releaseLock_def releaseSeatLock_def release_one_def falsy_def)














section \<open>Properties of the booking route\<close>

lemmas db_simps = ex_show_def ex_seat_def ex_body_def ex_lockdoc_def ex_db_def
  post_booking_def bookingSchema_validate_def is_hex_def valid_seat_def throws_def caught_def
  seat_id_def seatIds_of_def booking_seatIds_def bookedSeatIds_def booked_conflicts_def
  activeLocks_def userLocks_def missingLocks_def price_of_def seatsWithPrices_def
  bookingData_def committed_def booking_validate_def objectId_def hex_lower_def
  valid_objectId_def ex_prices_def ex_bookingId_def ex_bookingId2_def

lemma caught_not_applied: "\<not> applied (caught f)"
  by (auto simp: caught_def split: option.splits thrown.splits)

lemma bookingData_invalid: "\<not> booking_validate (bookingData sh user newId body)"
  by (simp add: booking_validate_def bookingData_def)

lemma post_booking_unchanged:
  "fst (post_booking db user newId f currentTime lockTime body) = db
   \<and> \<not> applied (snd (post_booking db user newId f currentTime lockTime body))"
proof (cases "bookingSchema_validate body")
  case (Some field)
  then show ?thesis by (simp add: post_booking_def)
next
  case None
  note valid = None
  show ?thesis
  proof (cases "db_shows db (objectId (br_showId body))")
    case None
    with valid show ?thesis by (simp add: post_booking_def caught_not_applied)
  next
    case (Some sh)
    with valid show ?thesis
      by (simp add: post_booking_def caught_not_applied bookingData_invalid)
  qed
qed


lemma set_userLocks:
  "set (userLocks db user now body) =
     {l \<in> set (db_seatLocks db). sl_showId l = objectId (br_showId body) \<and> sl_seatId l \<in> set (seatIds_of body)
        \<and> now \<le> sl_expiresAt l \<and> sl_lockedByUserId l = user}"
  by (auto simp: userLocks_def activeLocks_def)

lemma userLocks_seats:
  "sl_seatId ` set (userLocks db user now body) =
     {s \<in> set (seatIds_of body). has_own_live_lock db user now body s}"
  by (auto simp: set_userLocks has_own_live_lock_def list_ex_iff image_iff)

lemma missingLocks_eq:
  "missingLocks db user now body =
     filter (\<lambda>s. \<not> has_own_live_lock db user now body s) (seatIds_of body)"
proof -
  have "\<And>s. s \<in> set (seatIds_of body) \<Longrightarrow>
          list_ex (\<lambda>l. sl_seatId l = s) (userLocks db user now body)
            = has_own_live_lock db user now body s"
  proof -
    fix s assume s: "s \<in> set (seatIds_of body)"
    have "list_ex (\<lambda>l. sl_seatId l = s) (userLocks db user now body)
            \<longleftrightarrow> s \<in> sl_seatId ` set (userLocks db user now body)"
      by (auto simp: list_ex_iff)
    also have "\<dots> \<longleftrightarrow> has_own_live_lock db user now body s"
      using s by (simp add: userLocks_seats)
    finally show "list_ex (\<lambda>l. sl_seatId l = s) (userLocks db user now body)
            = has_own_live_lock db user now body s" .
  qed
  then show ?thesis unfolding missingLocks_def by (intro filter_cong) auto
qed

lemma distinct_userLocks_seats:
  assumes "unique_index (db_seatLocks db)"
  shows "distinct (map sl_seatId (userLocks db user now body))"
proof -
  let ?U = "userLocks db user now body"
  have U: "?U = filter (\<lambda>l. sl_lockedByUserId l = user
                \<and> sl_showId l = objectId (br_showId body) \<and> sl_seatId l \<in> set (seatIds_of body)
                \<and> now \<le> sl_expiresAt l) (db_seatLocks db)"
    by (simp add: userLocks_def activeLocks_def conj_commute)
  from assms have "distinct (map (\<lambda>l. (sl_showId l, sl_seatId l)) ?U)"
    unfolding unique_index_def U by (rule distinct_map_filter)
  then have d: "distinct ?U" and i: "inj_on (\<lambda>l. (sl_showId l, sl_seatId l)) (set ?U)"
    by (simp_all add: distinct_map)
  have "inj_on sl_seatId (set ?U)"
  proof (rule inj_onI)
    fix x y assume "x \<in> set ?U" "y \<in> set ?U" "sl_seatId x = sl_seatId y"
    moreover then have "sl_showId x = sl_showId y" by (simp add: set_userLocks)
    ultimately show "x = y" using i by (auto dest: inj_onD)
  qed
  with d show ?thesis by (simp add: distinct_map)
qed

lemma userLocks_length_iff:
  assumes "unique_index (db_seatLocks db)"
  shows "length (userLocks db user now body) = length (seatIds_of body)
         \<longleftrightarrow> distinct (seatIds_of body)
             \<and> (\<forall>s \<in> set (seatIds_of body). has_own_live_lock db user now body s)"
proof -
  let ?U = "userLocks db user now body" and ?ids = "seatIds_of body"
  let ?S = "{s \<in> set ?ids. has_own_live_lock db user now body s}"
  have "length ?U = length (map sl_seatId ?U)" by simp
  also have "\<dots> = card (set (map sl_seatId ?U))"
    by (rule distinct_card[symmetric]) (rule distinct_userLocks_seats[OF assms])
  also have "\<dots> = card ?S" by (simp add: userLocks_seats)
  finally have len: "length ?U = card ?S" .
  have sub: "?S \<subseteq> set ?ids" by auto
  have le1: "card ?S \<le> card (set ?ids)" by (rule card_mono) (auto)
  have le2: "card (set ?ids) \<le> length ?ids" by (rule card_length)
  show ?thesis
  proof
    assume "length ?U = length ?ids"
    with len le1 le2 have c1: "card (set ?ids) = length ?ids" and c2: "card ?S = card (set ?ids)"
      by simp_all
    from c1 have "distinct ?ids" by (rule card_distinct)
    moreover from sub c2 have "?S = set ?ids" by (intro card_subset_eq) auto
    ultimately show "distinct ?ids \<and> (\<forall>s \<in> set ?ids. has_own_live_lock db user now body s)"
      by auto
  next
    assume a: "distinct ?ids \<and> (\<forall>s \<in> set ?ids. has_own_live_lock db user now body s)"
    then have "?S = set ?ids" by auto
    with len a show "length ?U = length ?ids" by (simp add: distinct_card)
  qed
qed

lemma post_booking_at_lock_check:
  assumes "reaches_lock_check db f currentTime body"
    and "length (userLocks db user lockTime body) \<noteq> length (seatIds_of body)"
  shows "post_booking db user newId f currentTime lockTime body
           = (db, MissingLocks (missingLocks db user lockTime body))"
  using assms
  by (auto simp: post_booking_def reaches_lock_check_def throws_def
           split: option.splits)

lemmas lock_simps = has_own_live_lock_def reaches_lock_check_def unique_index_def






text \<open>
  Claim C10, as the code has it. The \<open>SeatLock\<close> collection satisfies its unique index. A
  request whose seat list repeats a seat identifier is never committed and the store is
  unchanged. The schema has no rule against the repetition: a request that passes the
  checks before the lock verification is rejected there, because the caller cannot hold
  as many locks as the list is long, with \<open>missingLocks\<close> equal to the requested seats the
  caller holds no unexpired lock for.
\<close>

theorem duplicate_seats_rejected_by_lock_count:
  assumes idx: "unique_index (db_seatLocks db)"
    and dup: "\<not> distinct (seatIds_of body)"
  shows "\<not> applied (snd (post_booking db user newId f currentTime lockTime body))
       \<and> fst (post_booking db user newId f currentTime lockTime body) = db
       \<and> (reaches_lock_check db f currentTime body \<longrightarrow>
            snd (post_booking db user newId f currentTime lockTime body)
              = MissingLocks (filter (\<lambda>s. \<not> has_own_live_lock db user lockTime body s)
                                (seatIds_of body)))"
proof -
  from dup have ne: "length (userLocks db user lockTime body) \<noteq> length (seatIds_of body)"
    using userLocks_length_iff[OF idx, of user lockTime body] by blast
  have 1: "fst (post_booking db user newId f currentTime lockTime body) = db"
    and 2: "\<not> applied (snd (post_booking db user newId f currentTime lockTime body))"
    using post_booking_unchanged[of db user newId f currentTime lockTime body] by blast+
  have 3: "reaches_lock_check db f currentTime body \<longrightarrow>
            snd (post_booking db user newId f currentTime lockTime body)
              = MissingLocks (filter (\<lambda>s. \<not> has_own_live_lock db user lockTime body s)
                                (seatIds_of body))"
    using post_booking_at_lock_check[OF _ ne] by (simp add: missingLocks_eq)
  from 1 2 3 show ?thesis by blast
qed

theorem duplicate_seats_rejected_by_lock_count_witness:
  "unique_index (db_seatLocks (ex_db [ex_lockdoc ''u1'' ''A1''] []))
   \<and> \<not> distinct (seatIds_of (ex_body [ex_seat ''A'' 1, ex_seat ''A'' 2, ex_seat ''A'' 1]))
   \<and> reaches_lock_check (ex_db [ex_lockdoc ''u1'' ''A1''] []) None 1000
        (ex_body [ex_seat ''A'' 1, ex_seat ''A'' 2, ex_seat ''A'' 1])
   \<and> post_booking (ex_db [ex_lockdoc ''u1'' ''A1''] []) ''u1'' ex_bookingId None 1000 1001
        (ex_body [ex_seat ''A'' 1, ex_seat ''A'' 2, ex_seat ''A'' 1])
      = (ex_db [ex_lockdoc ''u1'' ''A1''] [], MissingLocks [''A2''])"
proof -
  let ?db = "ex_db [ex_lockdoc ''u1'' ''A1''] []"
  let ?body = "ex_body [ex_seat ''A'' 1, ex_seat ''A'' 2, ex_seat ''A'' 1]"
  have ids: "seatIds_of ?body = [''A1'', ''A2'', ''A1'']"
    by (simp add: db_simps string_of_nat.simps digit_char_def)
  have idx: "unique_index (db_seatLocks ?db)"
    by (simp add: lock_simps db_simps)
  from ids have dup: "\<not> distinct (seatIds_of ?body)" by simp
  have l1: "has_own_live_lock ?db ''u1'' 1001 ?body ''A1''"
    and l2: "\<not> has_own_live_lock ?db ''u1'' 1001 ?body ''A2''"
    by (simp_all add: lock_simps db_simps ex_showId_def)
  have r: "reaches_lock_check ?db None 1000 ?body"
    by (simp add: lock_simps db_simps ex_showId_def string_of_nat.simps digit_char_def)
  note t = duplicate_seats_rejected_by_lock_count[OF idx dup, of "''u1''" "ex_bookingId" None 1000 1001]
  from t r l1 l2 ids
  have "post_booking ?db ''u1'' ex_bookingId None 1000 1001 ?body = (?db, MissingLocks [''A2''])"
    by (simp add: prod_eq_iff)
  with idx dup r show ?thesis by blast
qed

text \<open>
  Counterexample to claim C10 as stated. The seat list \<open>[A1, A1]\<close> passes the schema; the
  caller holds the lock on \<open>A1\<close>, and the request is rejected by the lock count with an
  empty \<open>missingLocks\<close>: no validation error, and the repeated seat is not named.
\<close>

theorem duplicate_seats_pass_validation_counterexample:
  "\<not> distinct (seatIds_of (ex_body [ex_seat ''A'' 1, ex_seat ''A'' 1]))
   \<and> bookingSchema_validate (ex_body [ex_seat ''A'' 1, ex_seat ''A'' 1]) = None
   \<and> post_booking (ex_db [ex_lockdoc ''u1'' ''A1''] []) ''u1'' ex_bookingId None 1000 1001
        (ex_body [ex_seat ''A'' 1, ex_seat ''A'' 1])
      = (ex_db [ex_lockdoc ''u1'' ''A1''] [], MissingLocks [])"
  by (simp add: db_simps ex_showId_def string_of_nat.simps digit_char_def)

section \<open>Properties of sequences of store requests\<close>

















section \<open>Properties of the server as a whole\<close>

lemma on_requestLock_db: "srv_db (fst (on_requestLock srv sock t1 t2 d)) = srv_db srv"
  by (simp add: on_requestLock_def)

lemma on_post_booking_locks:
  "srv_locks (fst (on_post_booking srv user newId f currentTime lockTime body)) = srv_locks srv"
  by (simp add: on_post_booking_def)

lemma granted_passes_guards:
  "granted (snd (requestLock tbl sock t1 t2 d)) \<Longrightarrow> passes_guards d"
  by (auto simp: requestLock_def passes_guards_def granted_def split: option.splits if_splits)

text \<open>
  Claim C4, as the code has it. \<open>requestLock\<close> consults the lock table alone: it never
  touches the store, its effects and the new lock table are the same whatever the store
  holds, and a message is granted exactly when it passes the guards and none of its seats
  has an entry in the lock table. A seat of a confirmed booking with no entry is granted
  like any other.
\<close>

theorem requestLock_ignores_bookings:
  "srv_db (fst (on_requestLock srv sock t1 t2 d)) = srv_db srv
   \<and> snd (on_requestLock (srv\<lparr>srv_db := db\<rparr>) sock t1 t2 d) = snd (on_requestLock srv sock t1 t2 d)
   \<and> srv_locks (fst (on_requestLock (srv\<lparr>srv_db := db\<rparr>) sock t1 t2 d))
       = srv_locks (fst (on_requestLock srv sock t1 t2 d))
   \<and> (granted (snd (on_requestLock srv sock t1 t2 d))
        \<longleftrightarrow> passes_guards d \<and> conflicts_of (srv_locks srv) d = [])"
proof (intro conjI)
  show "granted (snd (on_requestLock srv sock t1 t2 d))
        \<longleftrightarrow> passes_guards d \<and> conflicts_of (srv_locks srv) d = []"
    using granted_iff[of d "srv_locks srv" sock t1 t2]
      granted_passes_guards[of "srv_locks srv" sock t1 t2 d]
    by (auto simp: on_requestLock_def)
qed (simp_all add: on_requestLock_def)

theorem requestLock_ignores_bookings_witness:
  "''A2'' \<in> set (confirmedSeatIds (ex_db [] [ex_booking ''u1'' ex_bookingId [ex_seat ''A'' 2]]) ex_showId)
   \<and> passes_guards (ex_msg ''u2'' [''A2''])
   \<and> conflicts_of [] (ex_msg ''u2'' [''A2'']) = []
   \<and> granted (snd (on_requestLock
        (ex_server [] (ex_db [] [ex_booking ''u1'' ex_bookingId [ex_seat ''A'' 2]]))
        ''k2'' 5 6 (ex_msg ''u2'' [''A2''])))"
proof -
  have 1: "''A2'' \<in> set (confirmedSeatIds (ex_db [] [ex_booking ''u1'' ex_bookingId [ex_seat ''A'' 2]]) ex_showId)"
    by (simp add: confirmedSeatIds_def ex_booking_def db_simps ex_showId_def string_of_nat.simps digit_char_def)
  have 2: "passes_guards (ex_msg ''u2'' [''A2''])" and 3: "conflicts_of [] (ex_msg ''u2'' [''A2'']) = []"
    by (simp_all add: ex_simps)
  have l: "srv_locks (ex_server [] (ex_db [] [ex_booking ''u1'' ex_bookingId [ex_seat ''A'' 2]])) = []"
    by (simp add: ex_server_def)
  from requestLock_ignores_bookings[of "ex_server [] (ex_db [] [ex_booking ''u1'' ex_bookingId [ex_seat ''A'' 2]])"
      "''k2''" 5 6 "ex_msg ''u2'' [''A2'']"] 2 3 l
  have "granted (snd (on_requestLock
        (ex_server [] (ex_db [] [ex_booking ''u1'' ex_bookingId [ex_seat ''A'' 2]]))
        ''k2'' 5 6 (ex_msg ''u2'' [''A2''])))" by simp
  with 1 2 3 show ?thesis by blast
qed

text \<open>
  Counterexample to claim C4 as stated. Seat \<open>A1\<close> belongs to a confirmed booking of \<open>u1\<close>
  and the lock table is empty; \<open>u2\<close>'s request for \<open>A1\<close> is granted and the seat is locked
  for \<open>u2\<close>.
\<close>

theorem booked_seat_is_lockable_counterexample:
  "bk_status (ex_booking ''u1'' ex_bookingId [ex_seat ''A'' 1]) = Confirmed
   \<and> confirmedSeatIds (ex_db [] [ex_booking ''u1'' ex_bookingId [ex_seat ''A'' 1]]) ex_showId = [''A1'']
   \<and> on_requestLock (ex_server [] (ex_db [] [ex_booking ''u1'' ex_bookingId [ex_seat ''A'' 1]]))
        ''k2'' 5 6 (ex_msg ''u2'' [''A1''])
      = (ex_server [(lockKey ex_showId ''A1'',
                     new_lock (lockId_of (ex_msg ''u2'' [''A1'']) 5) ''u2'' ex_showId 180006 ''k2'' ''A1'')]
           (ex_db [] [ex_booking ''u1'' ex_bookingId [ex_seat ''A'' 1]]),
         [Emit (ToRoom (room ex_showId))
            (Locked [''A1''] (lockId_of (ex_msg ''u2'' [''A1'']) 5) 180006 ''u2''),
          Emit (ToSocket ''k2'') (LockSuccess (lockId_of (ex_msg ''u2'' [''A1'']) 5) 180006),
          SetTimeout 180000 ex_showId [''A1''] (lockId_of (ex_msg ''u2'' [''A1'']) 5)])"
  by (simp add: confirmedSeatIds_def ex_booking_def db_simps ex_simps ex_server_def
        on_requestLock_def requestLock_def Let_def)

text \<open>
  With no document in the \<open>SeatLock\<close> collection, a request that passes the checks before
  the lock verification is rejected there, with every requested seat in \<open>missingLocks\<close>.
\<close>

lemma no_seatLock_docs_no_commit:
  assumes e: "db_seatLocks db = []"
    and r: "reaches_lock_check db f currentTime body"
  shows "post_booking db user newId f currentTime lockTime body
           = (db, MissingLocks (seatIds_of body))"
proof -
  from e have u: "userLocks db user lockTime body = []"
    by (simp add: userLocks_def activeLocks_def)
  from r have "bookingSchema_validate body = None" by (simp add: reaches_lock_check_def)
  then have "br_seats body \<noteq> []"
    by (auto simp: bookingSchema_validate_def split: if_splits)
  with u have ne: "length (userLocks db user lockTime body) \<noteq> length (seatIds_of body)"
    by (simp add: seatIds_of_def)
  from e have "\<And>s. \<not> has_own_live_lock db user lockTime body s"
    by (simp add: has_own_live_lock_def)
  then have "missingLocks db user lockTime body = seatIds_of body"
    by (simp add: missingLocks_eq)
  with post_booking_at_lock_check[OF r ne] show ?thesis by simp
qed

text \<open>
  Claim C3, on the smallest run. User \<open>u1\<close> is granted seat \<open>A1\<close> through \<open>requestLock\<close>:
  the lock is in \<open>activeSeatLocks\<close> and the \<open>SeatLock\<close> collection is still empty. The
  commit of \<open>A1\<close> by \<open>u1\<close> then reads the \<open>SeatLock\<close> collection, finds no lock, and is
  rejected with \<open>missingLocks = [A1]\<close>; the server state is unchanged.
\<close>

theorem socket_lock_invisible_to_commit:
  "granted (snd (on_requestLock (ex_server [] (ex_db [] [])) ''k1'' 5 6 (ex_msg ''u1'' [''A1''])))
   \<and> map_of (srv_locks (fst (on_requestLock (ex_server [] (ex_db [] [])) ''k1'' 5 6
                               (ex_msg ''u1'' [''A1''])))) (lockKey ex_showId ''A1'')
       = Some (ex_lock ''u1'' ''A1'')
   \<and> db_seatLocks (srv_db (fst (on_requestLock (ex_server [] (ex_db [] [])) ''k1'' 5 6
                                  (ex_msg ''u1'' [''A1''])))) = []
   \<and> on_post_booking (fst (on_requestLock (ex_server [] (ex_db [] [])) ''k1'' 5 6
                              (ex_msg ''u1'' [''A1''])))
        ''u1'' ex_bookingId None 1000 1001 (ex_body [ex_seat ''A'' 1])
      = (fst (on_requestLock (ex_server [] (ex_db [] [])) ''k1'' 5 6 (ex_msg ''u1'' [''A1''])),
         MissingLocks [''A1''])"
  by (simp add: db_simps ex_simps ex_server_def on_requestLock_def on_post_booking_def
        requestLock_def Let_def granted_def)

end
